theory Spec2Isabelle
  imports Main "HOL-Library.Char_ord" "HOL-Library.List_Lexorder" "HOL-Library.AList"
begin

section \<open>Python values and exceptions\<close>

text \<open>
  The development embeds \<^verbatim>\<open>generate.py\<close>. Python strings are modelled as
  \<^typ>\<open>string\<close>; a character is a code point below 256 (settings URLs and segment
  names are ASCII identifiers; a localized label is only stored, compared and tested for
  emptiness). Every exception the
  embedded code can raise is a value of \<open>error\<close>, and a function that can raise returns
  \<open>error + 'a\<close> with \<open>Inl\<close> for the exception. An error result carries no state: the
  in-place mutations Python has already made when an exception propagates are not part of
  the model.

  \<open>Unrepresentable\<close> is not a Python exception. It marks the one place where the
  8-bit character model cannot hold Python's result: a percent escape that decodes (as
  UTF-8, with replacement) to a code point above 255.
\<close>

datatype error =
    IndexError
  | KeyError string
  | ValueError
  | Exception string
  | Unrepresentable

subsection \<open>String operations of Python used by the program\<close>

text \<open>\<^verbatim>\<open>s.startswith("#")\<close>\<close>

fun startswith_hash :: "string \<Rightarrow> bool" where
  "startswith_hash [] = False"
| "startswith_hash (c # cs) = (c = CHR ''#'')"

text \<open>\<^verbatim>\<open>s.split(c)\<close> for a one-character separator: never the empty list.\<close>

fun split_on :: "char \<Rightarrow> string \<Rightarrow> string list" where
  "split_on c [] = [[]]"
| "split_on c (x # xs) =
     (if x = c then [] # split_on c xs
      else (case split_on c xs of
              [] \<Rightarrow> [[x]]
            | p # ps \<Rightarrow> (x # p) # ps))"

text \<open>\<^verbatim>\<open>s.partition(c)\<close>: the text before the first \<open>c\<close>, whether \<open>c\<close> occurs, and
  the text after it.\<close>

fun partition_on :: "char \<Rightarrow> string \<Rightarrow> string \<times> bool \<times> string" where
  "partition_on c [] = ([], False, [])"
| "partition_on c (x # xs) =
     (if x = c then ([], True, xs)
      else (case partition_on c xs of (a, found, b) \<Rightarrow> (x # a, found, b)))"

text \<open>\<^verbatim>\<open>sep.join(parts)\<close>\<close>

fun join_with :: "string \<Rightarrow> string list \<Rightarrow> string" where
  "join_with sep [] = []"
| "join_with sep [x] = x"
| "join_with sep (x # y # ys) = x @ sep @ join_with sep (y # ys)"

definition is_ascii_alpha :: "char \<Rightarrow> bool" where
  "is_ascii_alpha c =
     (c \<in> set ''abcdefghijklmnopqrstuvwxyzABCDEFGHIJKLMNOPQRSTUVWXYZ'')"

definition is_ascii_digit :: "char \<Rightarrow> bool" where
  "is_ascii_digit c = (c \<in> set ''0123456789'')"

text \<open>\<^verbatim>\<open>s.lower()\<close> on the ASCII letters (the only place it is used is a
  scheme, which consists of \<open>scheme_chars\<close>).\<close>

definition ascii_lower :: "char \<Rightarrow> char" where
  "ascii_lower c =
     (if c \<in> set ''ABCDEFGHIJKLMNOPQRSTUVWXYZ''
      then char_of (of_char c + (32::nat)) else c)"

definition hex_val :: "char \<Rightarrow> nat option" where
  "hex_val c = map_of
     [(CHR ''0'', 0), (CHR ''1'', 1), (CHR ''2'', 2), (CHR ''3'', 3), (CHR ''4'', 4),
      (CHR ''5'', 5), (CHR ''6'', 6), (CHR ''7'', 7), (CHR ''8'', 8), (CHR ''9'', 9),
      (CHR ''A'', 10), (CHR ''B'', 11), (CHR ''C'', 12), (CHR ''D'', 13),
      (CHR ''E'', 14), (CHR ''F'', 15),
      (CHR ''a'', 10), (CHR ''b'', 11), (CHR ''c'', 12), (CHR ''d'', 13),
      (CHR ''e'', 14), (CHR ''f'', 15)] c"

section \<open>The parts of \<^verbatim>\<open>urllib.parse\<close> the codec calls\<close>

text \<open>
  \<^verbatim>\<open>urlparse\<close>, \<^verbatim>\<open>parse_qs\<close> and \<^verbatim>\<open>quote\<close> are library functions. They are
  modelled after CPython 3.11 for \<^verbatim>\<open>str\<close> arguments and the default keyword
  arguments, which is how \<^verbatim>\<open>generate.py\<close> calls them.
\<close>

subsection \<open>\<^verbatim>\<open>quote\<close>\<close>

definition always_safe :: "char \<Rightarrow> bool" where
  "always_safe c =
     (c \<in> set ''ABCDEFGHIJKLMNOPQRSTUVWXYZabcdefghijklmnopqrstuvwxyz0123456789_.-~'')"

text \<open>The UTF-8 bytes of a code point below 256.\<close>

definition utf8_encode :: "char \<Rightarrow> nat list" where
  "utf8_encode c =
     (let n = (of_char c :: nat)
      in if n < 128 then [n] else [192 + n div 64, 128 + n mod 64])"

definition hex_upper :: "nat \<Rightarrow> char" where
  "hex_upper n = ''0123456789ABCDEF'' ! (n mod 16)"

text \<open>\<^verbatim>\<open>'%{:02X}'.format(b)\<close>\<close>

definition percent_byte :: "nat \<Rightarrow> string" where
  "percent_byte b = [CHR ''%'', hex_upper (b div 16), hex_upper b]"

text \<open>
  \<^verbatim>\<open>quote(string)\<close> with \<^verbatim>\<open>safe='/'\<close>: the string is encoded as UTF-8, a byte
  of the always-safe set or of \<open>safe\<close> stays (\<^verbatim>\<open>_Quoter.__missing__\<close>), any other
  byte is percent-encoded. The safe bytes are ASCII, so a safe byte is the character
  itself. The two shortcuts of the library (the empty string, and a string of safe bytes
  only, are returned as they are) give the same result as the byte-by-byte path.
\<close>

definition quoter :: "char \<Rightarrow> string" where
  "quoter c =
     (if always_safe c \<or> c = CHR ''/'' then [c]
      else concat (map percent_byte (utf8_encode c)))"

definition quote :: "string \<Rightarrow> string" where
  "quote s = concat (map quoter s)"

subsection \<open>\<^verbatim>\<open>unquote\<close> and \<^verbatim>\<open>parse_qs\<close>\<close>

text \<open>
  \<^verbatim>\<open>unquote\<close> percent-decodes every maximal run of ASCII characters to bytes and
  decodes these bytes as UTF-8; non-ASCII characters pass through and end a run. A
  \<open>Byte\<close> is a byte of a run, a \<open>Lit\<close> a character outside the runs. A \<^verbatim>\<open>%\<close> that is
  not followed by two hexadecimal digits stays.
\<close>

datatype piece = Byte nat | Lit char

fun unquote_pieces :: "string \<Rightarrow> piece list" where
  "unquote_pieces [] = []"
| "unquote_pieces (c # cs) =
     (if c = CHR ''%'' then
        (case cs of
           h1 # h2 # rest \<Rightarrow>
             (case (hex_val h1, hex_val h2) of
                (Some a, Some b) \<Rightarrow> Byte (16 * a + b) # unquote_pieces rest
              | _ \<Rightarrow> Byte 37 # unquote_pieces cs)
         | _ \<Rightarrow> Byte 37 # unquote_pieces cs)
      else if (of_char c :: nat) < 128 then Byte (of_char c) # unquote_pieces cs
      else Lit c # unquote_pieces cs)"

text \<open>UTF-8 decoding with \<^verbatim>\<open>errors='replace'\<close>, as far as the result is a string of
  code points below 256: ASCII bytes, and the two-byte sequences led by \<open>0xC2\<close> and
  \<open>0xC3\<close>.\<close>

fun utf8_decode :: "piece list \<Rightarrow> error + string" where
  "utf8_decode [] = Inr []"
| "utf8_decode (Lit c # ps) =
     (case utf8_decode ps of Inl e \<Rightarrow> Inl e | Inr s \<Rightarrow> Inr (c # s))"
| "utf8_decode (Byte b # ps) =
     (if b < 128 then
        (case utf8_decode ps of Inl e \<Rightarrow> Inl e | Inr s \<Rightarrow> Inr (char_of b # s))
      else if b = 194 \<or> b = 195 then
        (case ps of
           Byte c # ps' \<Rightarrow>
             (if 128 \<le> c \<and> c < 192 then
                (case utf8_decode ps' of
                   Inl e \<Rightarrow> Inl e
                 | Inr s \<Rightarrow> Inr (char_of ((b - 192) * 64 + (c - 128)) # s))
              else Inl Unrepresentable)
         | _ \<Rightarrow> Inl Unrepresentable)
      else Inl Unrepresentable)"

definition unquote :: "string \<Rightarrow> error + string" where
  "unquote s = (if CHR ''%'' \<notin> set s then Inr s else utf8_decode (unquote_pieces s))"

definition unquote_plus :: "string \<Rightarrow> error + string" where
  "unquote_plus s = unquote (map (\<lambda>c. if c = CHR ''+'' then CHR '' '' else c) s)"

text \<open>The loop of \<^verbatim>\<open>parse_qsl\<close> over \<^verbatim>\<open>qs.split('&')\<close>, with
  \<^verbatim>\<open>keep_blank_values=False\<close> and \<^verbatim>\<open>strict_parsing=False\<close>: an empty field and a
  field with an empty value are skipped.\<close>

fun parse_qsl_fields :: "string list \<Rightarrow> error + (string \<times> string) list" where
  "parse_qsl_fields [] = Inr []"
| "parse_qsl_fields (name_value # fields) =
     (if name_value \<noteq> [] then
        (case partition_on CHR ''='' name_value of
           (name, has_eq, val) \<Rightarrow>
             (if val \<noteq> [] then
                (case unquote_plus name of
                   Inl e \<Rightarrow> Inl e
                 | Inr n \<Rightarrow>
                     (case unquote_plus val of
                        Inl e \<Rightarrow> Inl e
                      | Inr v \<Rightarrow>
                          (case parse_qsl_fields fields of
                             Inl e \<Rightarrow> Inl e
                           | Inr r \<Rightarrow> Inr ((n, v) # r))))
              else parse_qsl_fields fields))
      else parse_qsl_fields fields)"

definition parse_qsl :: "string \<Rightarrow> error + (string \<times> string) list" where
  "parse_qsl qs = (if qs = [] then Inr [] else parse_qsl_fields (split_on CHR ''&'' qs))"

text \<open>\<^verbatim>\<open>parse_qs\<close> collects the values of each name, in order of first appearance.\<close>

fun parse_qs_add ::
  "(string \<times> string list) list \<Rightarrow> string \<Rightarrow> string \<Rightarrow> (string \<times> string list) list" where
  "parse_qs_add [] name val = [(name, [val])]"
| "parse_qs_add ((k, vs) # entries) name val =
     (if k = name then (k, vs @ [val]) # entries
      else (k, vs) # parse_qs_add entries name val)"

definition parse_qs :: "string \<Rightarrow> error + (string \<times> string list) list" where
  "parse_qs qs =
     (case parse_qsl qs of
        Inl e \<Rightarrow> Inl e
      | Inr pairs \<Rightarrow> Inr (fold (\<lambda>p r. parse_qs_add r (fst p) (snd p)) pairs []))"

subsection \<open>\<^verbatim>\<open>urlparse\<close>\<close>

record ParseResult =
  scheme :: string
  netloc :: string
  path :: string
  params :: string
  query :: string
  fragment :: string

definition scheme_chars :: "char \<Rightarrow> bool" where
  "scheme_chars c =
     (c \<in> set ''abcdefghijklmnopqrstuvwxyzABCDEFGHIJKLMNOPQRSTUVWXYZ0123456789+-.'')"

definition uses_params :: "string list" where
  "uses_params = ['''', ''ftp'', ''hdl'', ''prospero'', ''http'', ''imap'', ''https'',
     ''shttp'', ''rtsp'', ''rtsps'', ''rtspu'', ''sip'', ''sips'', ''mms'', ''sftp'', ''tel'']"

text \<open>\<^verbatim>\<open>_splitnetloc(url, 2)\<close>: the authority runs from position 2 to the first of
  \<^verbatim>\<open>/ ? #\<close>.\<close>

definition splitnetloc :: "string \<Rightarrow> string \<times> string" where
  "splitnetloc url =
     (let rest = drop 2 url;
          is_delim = (\<lambda>c. c = CHR ''/'' \<or> c = CHR ''?'' \<or> c = CHR ''#'')
      in (takeWhile (\<lambda>c. \<not> is_delim c) rest, dropWhile (\<lambda>c. \<not> is_delim c) rest))"

text \<open>
  A bracketed host must be an IPvFuture or an IPv6 literal
  (\<^verbatim>\<open>_check_bracketed_host\<close>, which asks \<^verbatim>\<open>ipaddress.ip_address\<close>). The predicates
  below decide whether the library accepts the text; the address value is not computed, so
  the two hextets that stand for an embedded IPv4 suffix are written \<open>''0''\<close>.
\<close>

definition parse_octet_ok :: "string \<Rightarrow> bool" where
  "parse_octet_ok s =
     (s \<noteq> [] \<and> list_all is_ascii_digit s \<and> length s \<le> 3
      \<and> (s = ''0'' \<or> hd s \<noteq> CHR ''0'')
      \<and> foldl (\<lambda>n c. 10 * n + (of_char c - 48)) (0::nat) s \<le> 255)"

definition ipv4_ok :: "string \<Rightarrow> bool" where
  "ipv4_ok s =
     (s \<noteq> [] \<and> length (split_on CHR ''.'' s) = 4
      \<and> list_all parse_octet_ok (split_on CHR ''.'' s))"

definition parse_hextet_ok :: "string \<Rightarrow> bool" where
  "parse_hextet_ok s = (list_all (\<lambda>c. hex_val c \<noteq> None) s \<and> length s \<le> 4 \<and> s \<noteq> [])"

definition ipv6_parts_ok :: "string list \<Rightarrow> bool" where
  "ipv6_parts_ok parts =
     (let n = length parts;
          skips = filter (\<lambda>i. parts ! i = []) [1 ..< n - 1]
      in if n > 9 then False
         else if length skips > 1 then False
         else (case skips of
                 skip_index # _ \<Rightarrow>
                   (let parts_hi = (if hd parts = [] then skip_index - 1 else skip_index);
                        parts_lo = (if last parts = [] then n - skip_index - 2
                                    else n - skip_index - 1)
                    in if hd parts = [] \<and> parts_hi \<noteq> 0 then False
                       else if last parts = [] \<and> parts_lo \<noteq> 0 then False
                       else if 8 - int (parts_hi + parts_lo) < 1 then False
                       else list_all parse_hextet_ok (take parts_hi parts)
                            \<and> list_all parse_hextet_ok (drop (n - parts_lo) parts))
               | [] \<Rightarrow>
                   (if n \<noteq> 8 then False
                    else if hd parts = [] then False
                    else if last parts = [] then False
                    else list_all parse_hextet_ok parts)))"

definition ipv6_ok :: "string \<Rightarrow> bool" where
  "ipv6_ok ip_str =
     (case partition_on CHR ''%'' ip_str of
        (addr, sep, scope_id) \<Rightarrow>
          (if sep \<and> (scope_id = [] \<or> CHR ''%'' \<in> set scope_id) then False
           else if addr = [] then False
           else (let parts = split_on CHR '':'' addr
                 in if length parts < 3 then False
                    else if CHR ''.'' \<in> set (last parts)
                    then ipv4_ok (last parts)
                         \<and> ipv6_parts_ok (butlast parts @ [''0'', ''0''])
                    else ipv6_parts_ok parts)))"

text \<open>The regular expression \<^verbatim>\<open>\Av[a-fA-F0-9]+\..+\Z\<close>.\<close>

definition ipvfuture_ok :: "string \<Rightarrow> bool" where
  "ipvfuture_ok hostname =
     (case hostname of
        [] \<Rightarrow> False
      | v # rest \<Rightarrow>
          (let digits = takeWhile (\<lambda>c. hex_val c \<noteq> None) rest;
               after = dropWhile (\<lambda>c. hex_val c \<noteq> None) rest
           in v = CHR ''v'' \<and> digits \<noteq> [] \<and> after \<noteq> [] \<and> hd after = CHR ''.''
              \<and> length after \<ge> 2))"

definition check_bracketed_host :: "string \<Rightarrow> bool" where
  "check_bracketed_host hostname =
     (if hostname \<noteq> [] \<and> hd hostname = CHR ''v'' then ipvfuture_ok hostname
      else \<not> ipv4_ok hostname \<and> ipv6_ok hostname)"

text \<open>
  \<^verbatim>\<open>urlsplit\<close>. Leading C0 control characters and spaces are stripped, tab, carriage
  return and line feed are removed; the scheme is lowered; a malformed bracketed host
  raises \<^verbatim>\<open>ValueError\<close>. \<^verbatim>\<open>_checknetloc\<close> is left out: it raises only if NFKC
  normalisation of the authority produces one of \<^verbatim>\<open>/?#@:\<close>, which no code point below
  256 does.
\<close>

definition WHATWG_C0_CONTROL_OR_SPACE :: string where
  "WHATWG_C0_CONTROL_OR_SPACE =
     [CHR 0x00, CHR 0x01, CHR 0x02, CHR 0x03, CHR 0x04, CHR 0x05, CHR 0x06, CHR 0x07,
      CHR 0x08, CHR 0x09, CHR 0x0A, CHR 0x0B, CHR 0x0C, CHR 0x0D, CHR 0x0E, CHR 0x0F,
      CHR 0x10, CHR 0x11, CHR 0x12, CHR 0x13, CHR 0x14, CHR 0x15, CHR 0x16, CHR 0x17,
      CHR 0x18, CHR 0x19, CHR 0x1A, CHR 0x1B, CHR 0x1C, CHR 0x1D, CHR 0x1E, CHR 0x1F,
      CHR 0x20]"

definition UNSAFE_URL_BYTES_TO_REMOVE :: string where
  "UNSAFE_URL_BYTES_TO_REMOVE = [CHR 0x09, CHR 0x0D, CHR 0x0A]"

definition urlsplit :: "string \<Rightarrow> error + ParseResult" where
  "urlsplit url0 =
     (let url1 = dropWhile (\<lambda>c. c \<in> set WHATWG_C0_CONTROL_OR_SPACE) url0;
          url2 = filter (\<lambda>c. c \<notin> set UNSAFE_URL_BYTES_TO_REMOVE) url1;
          has_scheme = (CHR '':'' \<in> set url2
                        \<and> takeWhile (\<lambda>c. c \<noteq> CHR '':'') url2 \<noteq> []
                        \<and> is_ascii_alpha (hd url2)
                        \<and> list_all scheme_chars (takeWhile (\<lambda>c. c \<noteq> CHR '':'') url2));
          sch = (if has_scheme then map ascii_lower (takeWhile (\<lambda>c. c \<noteq> CHR '':'') url2)
                 else []);
          url3 = (if has_scheme then tl (dropWhile (\<lambda>c. c \<noteq> CHR '':'') url2) else url2);
          has_netloc = (take 2 url3 = ''//'');
          nl = (if has_netloc then fst (splitnetloc url3) else []);
          url4 = (if has_netloc then snd (splitnetloc url3) else url3)
      in if has_netloc \<and> ((CHR ''['' \<in> set nl \<and> CHR '']'' \<notin> set nl)
                          \<or> (CHR '']'' \<in> set nl \<and> CHR ''['' \<notin> set nl))
         then Inl ValueError
         else if has_netloc \<and> CHR ''['' \<in> set nl \<and> CHR '']'' \<in> set nl
                 \<and> \<not> check_bracketed_host
                       (fst (partition_on CHR '']''
                               (snd (snd (partition_on CHR ''['' nl)))))
         then Inl ValueError
         else
           (let frag = (if CHR ''#'' \<in> set url4
                        then snd (snd (partition_on CHR ''#'' url4)) else []);
                url5 = (if CHR ''#'' \<in> set url4
                        then fst (partition_on CHR ''#'' url4) else url4);
                qry = (if CHR ''?'' \<in> set url5
                       then snd (snd (partition_on CHR ''?'' url5)) else []);
                url6 = (if CHR ''?'' \<in> set url5
                        then fst (partition_on CHR ''?'' url5) else url5)
            in Inr \<lparr>scheme = sch, netloc = nl, path = url6, params = [],
                    query = qry, fragment = frag\<rparr>))"

text \<open>\<^verbatim>\<open>_splitparams\<close>: the parameters follow the first \<^verbatim>\<open>;\<close> of the last path
  segment.\<close>

definition splitparams :: "string \<Rightarrow> string \<times> string" where
  "splitparams url =
     (if CHR ''/'' \<in> set url then
        (let last_seg = last (split_on CHR ''/'' url);
             before = take (length url - length last_seg) url
         in if CHR '';'' \<notin> set last_seg then (url, [])
            else (before @ fst (partition_on CHR '';'' last_seg),
                  snd (snd (partition_on CHR '';'' last_seg))))
      else (fst (partition_on CHR '';'' url), snd (snd (partition_on CHR '';'' url))))"

definition urlparse :: "string \<Rightarrow> error + ParseResult" where
  "urlparse url =
     (case urlsplit url of
        Inl e \<Rightarrow> Inl e
      | Inr r \<Rightarrow>
          (if scheme r \<in> set uses_params \<and> CHR '';'' \<in> set (path r)
           then Inr (r\<lparr>path := fst (splitparams (path r)),
                       params := snd (splitparams (path r))\<rparr>)
           else Inr r))"

section \<open>The URL codec\<close>

text \<open>\<^verbatim>\<open>build_url\<close> (lines 44 to 74). \<^verbatim>\<open>segments_list[1]\<close> raises
  \<^verbatim>\<open>IndexError\<close> when the list has one element left after the fragment was popped.\<close>

definition build_url :: "string list \<Rightarrow> error + string" where
  "build_url segments =
     (if length segments = 0 then Inr ''''
      else
        (let url_scheme = hd segments;
             constructed_url0 = url_scheme @ '':'';
             constructed_url1 = (if url_scheme = ''settings-navigation''
                                 then constructed_url0 @ ''//'' else constructed_url0)
         in if length segments > 1 then
              (let url_fragment = (if startswith_hash (last segments)
                                   then Some (last segments) else None);
                   segments_list = (if url_fragment \<noteq> None then butlast segments
                                    else segments);
                   frag = (case url_fragment of None \<Rightarrow> [] | Some f \<Rightarrow> f)
               in if url_scheme = ''settings-navigation'' then
                    Inr (constructed_url1 @ quote (join_with ''/'' (tl segments_list))
                         @ frag @ frag)
                  else if length segments_list \<le> 1 then Inl IndexError
                  else
                    Inr (constructed_url1 @ ''root='' @ segments_list ! 1
                         @ (if length segments_list > 2
                            then ''&path='' @ quote (join_with ''/'' (drop 2 segments_list))
                            else [])
                         @ frag))
            else Inr constructed_url1))"

text \<open>
  \<^verbatim>\<open>get_path_segments\<close> (lines 77 to 110), with the generator run to its end. The only
  exception of the Python code is the \<^verbatim>\<open>ValueError\<close> of \<^verbatim>\<open>urlparse\<close>, raised before
  the first segment is produced.
\<close>

definition nonempty_parts :: "string \<Rightarrow> string list" where
  "nonempty_parts s = filter (\<lambda>seg. length seg > 0) (split_on CHR ''/'' s)"

definition qs_values :: "(string \<times> string list) list \<Rightarrow> string \<Rightarrow> string list" where
  "qs_values parsed name = (case map_of parsed name of None \<Rightarrow> [] | Some vs \<Rightarrow> vs)"

definition root_and_path :: "(string \<times> string list) list \<Rightarrow> string list" where
  "root_and_path parsed =
     qs_values parsed ''root'' @ concat (map nonempty_parts (qs_values parsed ''path''))"

definition get_path_segments :: "string \<Rightarrow> error + string list" where
  "get_path_segments url =
     (case urlparse url of
        Inl e \<Rightarrow> Inl e
      | Inr parsed \<Rightarrow>
          (let tail = (if length (fragment parsed) > 0
                       then [CHR ''#'' # fragment parsed] else [])
           in if length (netloc parsed) > 0 then
                (case parse_qs (netloc parsed) of
                   Inl e \<Rightarrow> Inl e
                 | Inr parsed_netloc \<Rightarrow>
                     Inr (scheme parsed
                          # (if parsed_netloc \<noteq> [] then root_and_path parsed_netloc
                             else [netloc parsed])
                          @ nonempty_parts (path parsed) @ tail))
              else
                (case parse_qs (path parsed) of
                   Inl e \<Rightarrow> Inl e
                 | Inr parsed_path \<Rightarrow>
                     Inr (scheme parsed # root_and_path parsed_path @ tail))))"

section \<open>Dictionaries\<close>

text \<open>
  A Python \<^verbatim>\<open>dict\<close> keeps its keys in insertion order, so it is an association list
  with distinct keys. \<^verbatim>\<open>d[k]\<close> and \<^verbatim>\<open>k in d\<close> are \<^const>\<open>map_of\<close>;
  \<^verbatim>\<open>d[k] = v\<close> is \<^const>\<open>AList.update\<close> (the value is replaced in place, a new key
  goes to the end); \<^verbatim>\<open>del d[k]\<close> is \<^const>\<open>AList.delete\<close>; \<^verbatim>\<open>d.update(other)\<close>
  stores the items of \<open>other\<close> one after the other.
\<close>

definition dict_update :: "('k \<times> 'v) list \<Rightarrow> ('k \<times> 'v) list \<Rightarrow> ('k \<times> 'v) list" where
  "dict_update d other = fold (\<lambda>item acc. AList.update (fst item) (snd item) acc) other d"

section \<open>The label resolver\<close>

definition UNKNOWN_PLACEHOLDER :: string where
  "UNKNOWN_PLACEHOLDER = ''UNKNOWN_LABEL''"

definition DEVICE_TYPES :: "string list" where
  "DEVICE_TYPES = [''iphone'', ''ipad'', ''ipod'', ''mac'', ''applevision'', ''other'']"

text \<open>\<^verbatim>\<open>LocalizationString = str | dict[str, dict[str, str]]\<close>\<close>

datatype LocalizationString =
    LStr string
  | LDict "(string \<times> (string \<times> string) list) list"

text \<open>The loop of \<^verbatim>\<open>sanitize_key\<close> over \<^verbatim>\<open>DEVICE_TYPES\<close>: it returns at the first
  device type that is a key of the device-specific labels.\<close>

fun first_device_label :: "string list \<Rightarrow> (string \<times> string) list \<Rightarrow> string option" where
  "first_device_label [] device_specific_labels = None"
| "first_device_label (device_type # device_types) device_specific_labels =
     (case map_of device_specific_labels device_type of
        Some l \<Rightarrow> Some l
      | None \<Rightarrow> first_device_label device_types device_specific_labels)"

definition sanitize_key :: "LocalizationString \<Rightarrow> string" where
  "sanitize_key key =
     (case key of
        LStr s \<Rightarrow> s
      | LDict d \<Rightarrow>
          (case map_of d ''NSStringDeviceSpecificRuleType'' of
             Some device_specific_labels \<Rightarrow>
               (case first_device_label DEVICE_TYPES device_specific_labels of
                  Some l \<Rightarrow> l
                | None \<Rightarrow> UNKNOWN_PLACEHOLDER)
           | None \<Rightarrow> UNKNOWN_PLACEHOLDER))"

section \<open>The merge engine\<close>

definition ROOT_STR :: string where
  "ROOT_STR = ''(root)''"

text \<open>The values of a localized tree: a URL, a sorted list of URLs, or a sub-dictionary.\<close>

datatype val =
    Str string
  | Lst "string list"
  | Dct "(string \<times> val) list"

text \<open>Python's \<^verbatim>\<open>==\<close> on these values: values of different types are unequal, lists
  are compared element by element, dictionaries by their items whatever the order.\<close>

fun py_eq :: "val \<Rightarrow> val \<Rightarrow> bool"
  and py_eq_items :: "(string \<times> val) list \<Rightarrow> (string \<times> val) list \<Rightarrow> bool" where
  "py_eq (Str a) (Str b) = (a = b)"
| "py_eq (Lst a) (Lst b) = (a = b)"
| "py_eq (Dct a) (Dct b) = (length a = length b \<and> py_eq_items a b)"
| "py_eq (Str a) (Lst b) = False"
| "py_eq (Str a) (Dct b) = False"
| "py_eq (Lst a) (Str b) = False"
| "py_eq (Lst a) (Dct b) = False"
| "py_eq (Dct a) (Str b) = False"
| "py_eq (Dct a) (Lst b) = False"
| "py_eq_items [] b = True"
| "py_eq_items ((k, v) # a) b =
     ((case map_of b k of None \<Rightarrow> False | Some v' \<Rightarrow> py_eq v v') \<and> py_eq_items a b)"

text \<open>
  \<^verbatim>\<open>merge_into\<close> (lines 133 to 178). The Python function mutates \<open>dictionary\<close> (and,
  in two branches, \<open>value\<close>) in place; the model returns the dictionary after the call.
  \<^verbatim>\<open>list.sort()\<close> on strings is \<^const>\<open>sort\<close> with the lexicographic order on code
  points.
\<close>

function merge_into :: "(string \<times> val) list \<Rightarrow> string \<Rightarrow> val \<Rightarrow> (string \<times> val) list" where
  "merge_into dictionary key value =
     (case map_of dictionary key of
        None \<Rightarrow> AList.update key value dictionary
      | Some existing_value \<Rightarrow>
          (if py_eq existing_value value then dictionary
           else
             (case existing_value of
                Str e \<Rightarrow>
                  (case value of
                     Dct d \<Rightarrow>
                       AList.update key (Dct (merge_into d ROOT_STR existing_value)) dictionary
                   | Str v \<Rightarrow> AList.update key (Lst (sort [e, v])) dictionary
                   | Lst l \<Rightarrow> AList.update key (Lst (sort (l @ [e]))) dictionary)
              | Lst e \<Rightarrow>
                  (case value of
                     Dct d \<Rightarrow>
                       AList.update key (Dct (merge_into d ROOT_STR existing_value)) dictionary
                   | Str v \<Rightarrow> AList.update key (Lst (sort (e @ [v]))) dictionary
                   | Lst l \<Rightarrow> AList.update key (Lst (sort (e @ l))) dictionary)
              | Dct e \<Rightarrow>
                  (case value of
                     Dct d \<Rightarrow>
                       AList.update key
                         (Dct (fold (\<lambda>item acc. merge_into acc (fst item) (snd item)) d e))
                         dictionary
                   | Str v \<Rightarrow> AList.update key (Dct (merge_into e ROOT_STR value)) dictionary
                   | Lst l \<Rightarrow> AList.update key (Dct (merge_into e ROOT_STR value)) dictionary))))"
  by pat_completeness auto

lemma size_map_of_val:
  "map_of d k = Some v \<Longrightarrow> size v < Suc (size_list (size_prod (\<lambda>_. 0) size) d)"
  by (induction d) (auto split: if_splits)

lemma size_in_dict:
  "item \<in> set d \<Longrightarrow> size (snd item) < Suc (size_list (size_prod (\<lambda>_. 0) size) d)"
  by (induction d) auto

termination merge_into
  apply (relation "inv_image (less_than <*lex*> less_than)
         (\<lambda>(d, k, v). (size v, size_list (size_prod (\<lambda>_. 0) size) d))")
       apply (auto dest: size_map_of_val size_in_dict)
  done

declare merge_into.simps [simp del]

section \<open>Records, manifests and overrides\<close>

text \<open>\<^verbatim>\<open>RawSettingsURL\<close>; \<open>aliases\<close> is \<^verbatim>\<open>None\<close> until the first alias is added.\<close>

record RawSettingsURL =
  url :: string
  label_id :: string
  manifest_path :: string
  localized_labels :: "(string \<times> LocalizationString) list"
  aliases :: "string list option"

text \<open>
  An override is a JSON object with the keys \<^verbatim>\<open>url\<close>, \<^verbatim>\<open>label_id\<close>,
  \<^verbatim>\<open>manifest\<close>, \<^verbatim>\<open>label\<close> and \<^verbatim>\<open>child_urls\<close>; a field is \<open>None\<close> when the key
  is absent (for \<^verbatim>\<open>label_id\<close>, which is read with \<^verbatim>\<open>.get\<close>, also when it is
  \<^verbatim>\<open>null\<close>).
\<close>

record NewOverride =
  ov_url :: "string option"
  ov_label_id :: "string option"
  ov_manifest :: "string option"
  ov_label :: "(string \<times> LocalizationString) list option"
  ov_child_urls :: "(string \<times> string) list option"

text \<open>The module-level accumulators that \<^verbatim>\<open>RawSettingsURL.add_alias\<close> writes.\<close>

record globals =
  alias_localizations :: "(string \<times> (string \<times> LocalizationString) list) list"
  urls_to_override :: "NewOverride list"

text \<open>\<^verbatim>\<open>RawSettingsURL.__init__\<close>: the corrections are applied to the URL and the
  label identifier.\<close>

definition RawSettingsURL_init ::
  "(string \<times> (string \<times> string) list) list \<Rightarrow> string \<Rightarrow> string \<Rightarrow> string \<Rightarrow> RawSettingsURL" where
  "RawSettingsURL_init url_corrections u l p =
     \<lparr>url = (case map_of url_corrections u of
               Some c \<Rightarrow> (case map_of c ''url'' of Some u' \<Rightarrow> u' | None \<Rightarrow> u)
             | None \<Rightarrow> u),
      label_id = (case map_of url_corrections u of
               Some c \<Rightarrow> (case map_of c ''label_id'' of Some l' \<Rightarrow> l' | None \<Rightarrow> l)
             | None \<Rightarrow> l),
      manifest_path = p,
      localized_labels = [],
      aliases = None\<rparr>"

text \<open>The \<^verbatim>\<open>while\<close> loop of \<^verbatim>\<open>RawSettingsURL.add_alias\<close> (lines 203 to 208): every
  pending override for the alias URL is deleted; \<^verbatim>\<open>override["url"]\<close> raises
  \<^verbatim>\<open>KeyError\<close> on an override without that key.\<close>

fun drop_overrides :: "NewOverride list \<Rightarrow> string \<Rightarrow> error + NewOverride list" where
  "drop_overrides [] u = Inr []"
| "drop_overrides (override # overrides) u =
     (case ov_url override of
        None \<Rightarrow> Inl (KeyError ''url'')
      | Some u' \<Rightarrow>
          (case drop_overrides overrides u of
             Inl e \<Rightarrow> Inl e
           | Inr kept \<Rightarrow> Inr (if u' = u then kept else override # kept)))"

definition RawSettingsURL_add_alias ::
  "RawSettingsURL \<Rightarrow> string \<Rightarrow> globals \<Rightarrow> error + RawSettingsURL \<times> globals" where
  "RawSettingsURL_add_alias self u g =
     (case drop_overrides (urls_to_override g) u of
        Inl e \<Rightarrow> Inl e
      | Inr kept \<Rightarrow>
          Inr (self\<lparr>aliases := Some ((case aliases self of None \<Rightarrow> [] | Some a \<Rightarrow> a) @ [u])\<rparr>,
               g\<lparr>alias_localizations :=
                    AList.update u (localized_labels self) (alias_localizations g),
                  urls_to_override := kept\<rparr>))"

record Manifest =
  Manifest_path :: string
  Manifest_urls :: "RawSettingsURL list"
  Manifest_strings :: "(string \<times> (string \<times> LocalizationString) list) list"

text \<open>\<^verbatim>\<open>len\<close> of a localization entry: the length of the string, or the number of keys
  of the dictionary.\<close>

fun len_entry :: "LocalizationString \<Rightarrow> nat" where
  "len_entry (LStr s) = length s"
| "len_entry (LDict d) = length d"

text \<open>
  The label assignment of \<^verbatim>\<open>Bundle.load\<close> (lines 290 to 307), after the files of the
  bundle have been read into \<open>manifests\<close>, \<open>lproj_strings\<close> and \<open>loctables\<close>.
  \<open>assign_labels\<close> is the loop over the locales for one URL.
\<close>

fun assign_labels ::
  "RawSettingsURL \<Rightarrow> (string \<times> (string \<times> LocalizationString) list) list
     \<Rightarrow> error + RawSettingsURL" where
  "assign_labels u [] = Inr u"
| "assign_labels u ((locale, locale_strs) # manifest_strings) =
     (case map_of locale_strs (label_id u) of
        None \<Rightarrow> assign_labels u manifest_strings
      | Some entry \<Rightarrow>
          (if len_entry entry = 0
           then Inl (Exception (''Empty label for URL '' @ url u @ '', locale '' @ locale
                                @ ''. Please adjust overrides as necessary.''))
           else assign_labels
                  (u\<lparr>localized_labels := AList.update locale entry (localized_labels u)\<rparr>)
                  manifest_strings))"

fun assign_labels_urls ::
  "RawSettingsURL list \<Rightarrow> (string \<times> (string \<times> LocalizationString) list) list
     \<Rightarrow> error + RawSettingsURL list" where
  "assign_labels_urls [] manifest_strings = Inr []"
| "assign_labels_urls (u # us) manifest_strings =
     (case assign_labels u manifest_strings of
        Inl e \<Rightarrow> Inl e
      | Inr u' \<Rightarrow>
          (case assign_labels_urls us manifest_strings of
             Inl e \<Rightarrow> Inl e
           | Inr us' \<Rightarrow> Inr (u' # us')))"

fun Bundle_load_labels ::
  "(string \<times> Manifest) list
     \<Rightarrow> (string \<times> (string \<times> (string \<times> LocalizationString) list) list) list
     \<Rightarrow> (string \<times> (string \<times> (string \<times> LocalizationString) list) list) list
     \<Rightarrow> error + (string \<times> Manifest) list" where
  "Bundle_load_labels [] lproj_strings loctables = Inr []"
| "Bundle_load_labels ((manifest_name, manifest) # manifests) lproj_strings loctables =
     (let manifest_strings =
            dict_update
              (dict_update []
                 (case map_of lproj_strings manifest_name of None \<Rightarrow> [] | Some s \<Rightarrow> s))
              (case map_of loctables manifest_name of None \<Rightarrow> [] | Some s \<Rightarrow> s)
      in case assign_labels_urls (Manifest_urls manifest) manifest_strings of
           Inl e \<Rightarrow> Inl e
         | Inr us \<Rightarrow>
             (case Bundle_load_labels manifests lproj_strings loctables of
                Inl e \<Rightarrow> Inl e
              | Inr ms \<Rightarrow>
                  Inr ((manifest_name,
                        manifest\<lparr>Manifest_urls := us, Manifest_strings := manifest_strings\<rparr>)
                       # ms)))"

section \<open>The URL tree\<close>

text \<open>\<^verbatim>\<open>URLTree\<close>: the owning record of the node and its children by path segment.\<close>

datatype URLTree = URLTree (root: "RawSettingsURL option") (urls: "(string \<times> URLTree) list")

text \<open>
  \<^verbatim>\<open>URLTree.add_url\<close> (lines 388 to 400): \<open>add_url_at\<close> is the walk along the
  segments, creating the nodes that are missing.
\<close>

fun add_url_at :: "URLTree \<Rightarrow> string list \<Rightarrow> RawSettingsURL \<Rightarrow> URLTree" where
  "add_url_at (URLTree r us) [] u = URLTree (Some u) us"
| "add_url_at (URLTree r us) (path_segment # path_segments) u =
     URLTree r
       (AList.update path_segment
          (add_url_at
             (case map_of us path_segment of None \<Rightarrow> URLTree None [] | Some t \<Rightarrow> t)
             path_segments u)
          us)"

definition add_url :: "URLTree \<Rightarrow> RawSettingsURL \<Rightarrow> error + URLTree" where
  "add_url tree u =
     (case get_path_segments (url u) of
        Inl e \<Rightarrow> Inl e
      | Inr path_segments \<Rightarrow> Inr (add_url_at tree path_segments u))"

text \<open>
  \<^verbatim>\<open>URLTree.add_alias\<close> (lines 402 to 434). \<open>add_alias_children\<close> is the loop over
  \<^verbatim>\<open>self.urls.items()\<close> of the recursive case; \<open>add_alias_next\<close> is the step
  \<^verbatim>\<open>self.urls[next_segment].add_alias(...)\<close>, taken when \<open>next_segment\<close> is a key of
  the children. \<open>path_segments_rev\<close> is the reversed list of the segments still to walk;
  \<^verbatim>\<open>path_segments_rev.pop()\<close> takes its last element and raises \<^verbatim>\<open>IndexError\<close> on the
  empty list.
\<close>

function (sequential) add_alias ::
    "URLTree \<Rightarrow> string \<Rightarrow> string \<Rightarrow> bool \<Rightarrow> string list option \<Rightarrow> globals
       \<Rightarrow> error + URLTree \<times> globals"
  and add_alias_children ::
    "(string \<times> URLTree) list \<Rightarrow> string list \<Rightarrow> string list \<Rightarrow> bool \<Rightarrow> globals
       \<Rightarrow> error + (string \<times> URLTree) list \<times> globals"
  and add_alias_next ::
    "(string \<times> URLTree) list \<Rightarrow> string \<Rightarrow> string \<Rightarrow> string \<Rightarrow> bool \<Rightarrow> string list \<Rightarrow> globals
       \<Rightarrow> error + (string \<times> URLTree) list \<times> globals" where
  "add_alias (URLTree r us) u alias recursive path_segments_rev g =
     (if r \<noteq> None \<and> url (the r) = u then
        (case RawSettingsURL_add_alias (the r) alias g of
           Inl e \<Rightarrow> Inl e
         | Inr (r', g1) \<Rightarrow>
             (if recursive then
                (case get_path_segments u of
                   Inl e \<Rightarrow> Inl e
                 | Inr aliased_url_segments \<Rightarrow>
                     (case get_path_segments alias of
                        Inl e \<Rightarrow> Inl e
                      | Inr alias_segments \<Rightarrow>
                          (case add_alias_children us aliased_url_segments alias_segments
                                  recursive g1 of
                             Inl e \<Rightarrow> Inl e
                           | Inr (us', g2) \<Rightarrow> Inr (URLTree (Some r') us', g2))))
              else Inr (URLTree (Some r') us, g1)))
      else
        (case (case path_segments_rev of
                 None \<Rightarrow> (case get_path_segments u of
                             Inl e \<Rightarrow> Inl e
                           | Inr segs \<Rightarrow> Inr (rev segs))
               | Some segs_rev \<Rightarrow> Inr segs_rev) of
           Inl e \<Rightarrow> Inl e
         | Inr segs_rev \<Rightarrow>
             (if segs_rev = [] then Inl IndexError
              else
                (case add_alias_next us (last segs_rev) u alias recursive
                        (butlast segs_rev) g of
                   Inl e \<Rightarrow> Inl e
                 | Inr (us', g') \<Rightarrow> Inr (URLTree r us', g')))))"
| "add_alias_children [] aliased_url_segments alias_segments recursive g = Inr ([], g)"
| "add_alias_children ((url_key, child_tree) # children) aliased_url_segments
       alias_segments recursive g =
     (case build_url (aliased_url_segments @ [url_key]) of
        Inl e \<Rightarrow> Inl e
      | Inr child_url \<Rightarrow>
          (case build_url (alias_segments @ [url_key]) of
             Inl e \<Rightarrow> Inl e
           | Inr child_alias \<Rightarrow>
               (case add_alias child_tree child_url child_alias recursive None g of
                  Inl e \<Rightarrow> Inl e
                | Inr (child_tree', g1) \<Rightarrow>
                    (case add_alias_children children aliased_url_segments alias_segments
                            recursive g1 of
                       Inl e \<Rightarrow> Inl e
                     | Inr (children', g2) \<Rightarrow>
                         Inr ((url_key, child_tree') # children', g2)))))"
| "add_alias_next [] next_segment u alias recursive segs_rev g = Inr ([], g)"
| "add_alias_next ((url_key, child_tree) # children) next_segment u alias recursive
       segs_rev g =
     (if url_key = next_segment then
        (case add_alias child_tree u alias recursive (Some segs_rev) g of
           Inl e \<Rightarrow> Inl e
         | Inr (child_tree', g') \<Rightarrow> Inr ((url_key, child_tree') # children, g'))
      else
        (case add_alias_next children next_segment u alias recursive segs_rev g of
           Inl e \<Rightarrow> Inl e
         | Inr (children', g') \<Rightarrow> Inr ((url_key, child_tree) # children', g')))"
  by pat_completeness auto
termination
  by (relation "measure (\<lambda>x. case x of
         Inl (t, _) \<Rightarrow> size t
       | Inr (Inl (us, _)) \<Rightarrow> size_list (size_prod (\<lambda>_. 0) size) us
       | Inr (Inr (us, _)) \<Rightarrow> size_list (size_prod (\<lambda>_. 0) size) us)") auto

text \<open>
  \<^verbatim>\<open>URLTree.find_missing\<close> (lines 436 to 450), with the generator run to its end on a
  tree that is not changed meanwhile; \<open>segments\<close> is the path from the root of the tree
  to the node (the empty list in the call \<^verbatim>\<open>tree.find_missing()\<close>).
\<close>

function (sequential) find_missing :: "URLTree \<Rightarrow> string list \<Rightarrow> error + (string \<times> URLTree) list"
  and find_missing_children ::
    "(string \<times> URLTree) list \<Rightarrow> string list \<Rightarrow> error + (string \<times> URLTree) list" where
  "find_missing (URLTree r us) segments =
     (case (if r = None \<and> length segments > 1
            then (case build_url segments of
                    Inl e \<Rightarrow> Inl e
                  | Inr missing_url \<Rightarrow> Inr [(missing_url, URLTree r us)])
            else Inr []) of
        Inl e \<Rightarrow> Inl e
      | Inr here \<Rightarrow>
          (case find_missing_children us segments of
             Inl e \<Rightarrow> Inl e
           | Inr below \<Rightarrow> Inr (here @ below)))"
| "find_missing_children [] segments = Inr []"
| "find_missing_children ((key, subtree) # children) segments =
     (case find_missing subtree (segments @ [key]) of
        Inl e \<Rightarrow> Inl e
      | Inr found \<Rightarrow>
          (case find_missing_children children segments of
             Inl e \<Rightarrow> Inl e
           | Inr found_later \<Rightarrow> Inr (found @ found_later)))"
  by pat_completeness auto
termination
  by (relation "measure (\<lambda>x. case x of
         Inl (t, _) \<Rightarrow> size t
       | Inr (us, _) \<Rightarrow> size_list (size_prod (\<lambda>_. 0) size) us)") auto

text \<open>
  \<^verbatim>\<open>add_override\<close> (lines 509 to 528); \<open>url_corrections\<close>, \<open>manifests\<close> and
  \<open>tree\<close> are the module-level variables of the same names. \<open>override_labels\<close> is the
  loop over the strings of the manifest.
\<close>

fun override_labels ::
  "RawSettingsURL \<Rightarrow> string \<Rightarrow> (string \<times> (string \<times> LocalizationString) list) list
     \<Rightarrow> RawSettingsURL" where
  "override_labels override_url override_label_id [] = override_url"
| "override_labels override_url override_label_id ((lang, lang_localizations) # strings) =
     (case map_of lang_localizations override_label_id of
        None \<Rightarrow> override_labels override_url override_label_id strings
      | Some entry \<Rightarrow>
          override_labels
            (override_url\<lparr>localized_labels :=
                            AList.update lang entry (localized_labels override_url)\<rparr>)
            override_label_id strings)"

definition add_override ::
  "(string \<times> (string \<times> string) list) list \<Rightarrow> (string \<times> Manifest) list \<Rightarrow> URLTree
     \<Rightarrow> NewOverride \<Rightarrow> error + URLTree" where
  "add_override url_corrections manifests tree override =
     (let override_label_id = ov_label_id override;
          manifest_path_str = (case ov_manifest override of
                                 Some m \<Rightarrow> m @ ''.plist'' | None \<Rightarrow> '''')
      in case ov_url override of
           None \<Rightarrow> Inl (KeyError ''url'')
         | Some u \<Rightarrow>
             (let override_url =
                    RawSettingsURL_init url_corrections u
                      (case override_label_id of None \<Rightarrow> '''' | Some l \<Rightarrow> l)
                      manifest_path_str
              in case override_label_id of
                   Some l \<Rightarrow>
                     (case ov_manifest override of
                        None \<Rightarrow> Inl (KeyError ''manifest'')
                      | Some m \<Rightarrow>
                          (case map_of manifests m of
                             None \<Rightarrow> Inl (KeyError m)
                           | Some override_url_manifest \<Rightarrow>
                               add_url tree
                                 (override_labels override_url l
                                    (Manifest_strings override_url_manifest))))
                 | None \<Rightarrow>
                     (case ov_label override of
                        None \<Rightarrow> Inl (KeyError ''label'')
                      | Some labels \<Rightarrow>
                          add_url tree (override_url\<lparr>localized_labels := labels\<rparr>))))"

text \<open>
  The root flattening block (lines 677 to 685): the children of \<^verbatim>\<open>prefs:root=ROOT\<close>
  become children of the \<^verbatim>\<open>prefs\<close> scheme node, and \<^verbatim>\<open>ROOT\<close> is deleted.
\<close>

definition flatten_root :: "URLTree \<Rightarrow> URLTree" where
  "flatten_root tree =
     (case map_of (urls tree) ''prefs'' of
        None \<Rightarrow> tree
      | Some prefs_scheme \<Rightarrow>
          (case map_of (urls prefs_scheme) ''ROOT'' of
             None \<Rightarrow> tree
           | Some root_root \<Rightarrow>
               URLTree (root tree)
                 (AList.update ''prefs''
                    (URLTree (root prefs_scheme)
                       (AList.delete ''ROOT''
                          (dict_update (urls prefs_scheme) (urls root_root))))
                    (urls tree))))"

section \<open>Notions used to state the properties\<close>

text \<open>
  A string is reachable in a value of a localized tree when it is the value itself, an
  element of the list, or reachable in the value stored under the reserved key
  \<^verbatim>\<open>(root)\<close> of the dictionary.
\<close>

function reachable :: "string \<Rightarrow> val \<Rightarrow> bool" where
  "reachable s (Str x) = (x = s)"
| "reachable s (Lst xs) = (s \<in> set xs)"
| "reachable s (Dct d) =
     (case map_of d ROOT_STR of None \<Rightarrow> False | Some v \<Rightarrow> reachable s v)"
  by pat_completeness auto
termination
  by (relation "measure (\<lambda>(s, v). size v)") (auto dest: size_map_of_val)

text \<open>A sequence of \<^verbatim>\<open>merge_into\<close> calls with string values on one container and
  key, in the order of the list.\<close>

fun merge_all :: "(string \<times> val) list \<Rightarrow> string \<Rightarrow> string list \<Rightarrow> (string \<times> val) list" where
  "merge_all c k [] = c"
| "merge_all c k (v # vs) = merge_all (merge_into c k (Str v)) k vs"

text \<open>
  The nodes of a tree with their segment paths from the root of the tree, in the order of
  the walk of \<^verbatim>\<open>find_missing\<close>: a node before its children, the children in the order
  of the dictionary. A gap is a node without an owning record whose path has more than one
  segment. \<open>build_pairs\<close> calls \<^verbatim>\<open>build_url\<close> on each path in turn and stops at the
  first exception.
\<close>

function (sequential) nodes_with_paths :: "URLTree \<Rightarrow> string list \<Rightarrow> (string list \<times> URLTree) list"
  and children_with_paths ::
    "(string \<times> URLTree) list \<Rightarrow> string list \<Rightarrow> (string list \<times> URLTree) list" where
  "nodes_with_paths (URLTree r us) segments =
     (segments, URLTree r us) # children_with_paths us segments"
| "children_with_paths [] segments = []"
| "children_with_paths ((key, subtree) # children) segments =
     nodes_with_paths subtree (segments @ [key]) @ children_with_paths children segments"
  by pat_completeness auto
termination
  by (relation "measure (\<lambda>x. case x of
         Inl (t, _) \<Rightarrow> size t
       | Inr (us, _) \<Rightarrow> size_list (size_prod (\<lambda>_. 0) size) us)") auto

fun is_gap :: "string list \<times> URLTree \<Rightarrow> bool" where
  "is_gap (segments, node) = (root node = None \<and> length segments > 1)"

fun build_pairs :: "(string list \<times> URLTree) list \<Rightarrow> error + (string \<times> URLTree) list" where
  "build_pairs [] = Inr []"
| "build_pairs ((segments, node) # nodes) =
     (case build_url segments of
        Inl e \<Rightarrow> Inl e
      | Inr missing_url \<Rightarrow>
          (case build_pairs nodes of
             Inl e \<Rightarrow> Inl e
           | Inr pairs \<Rightarrow> Inr ((missing_url, node) # pairs)))"

text \<open>
  The walk of \<^verbatim>\<open>add_alias\<close> for the URL \<open>u\<close> along the segments \<open>segs\<close> leaves
  the tree: no node on the way is owned by \<open>u\<close>, and at some node the next segment is
  not a key of the children.
\<close>

fun leaves_tree :: "URLTree \<Rightarrow> string list \<Rightarrow> string \<Rightarrow> bool" where
  "leaves_tree t [] u = False"
| "leaves_tree t (s # segs) u =
     (\<not> (root t \<noteq> None \<and> url (the (root t)) = u)
      \<and> (case map_of (urls t) s of
            None \<Rightarrow> True
          | Some child \<Rightarrow> leaves_tree child segs u))"


section \<open>Properties of the codec\<close>

text \<open>
  C10. \<^verbatim>\<open>build_url\<close> is not total on the segment sequences that
  \<^verbatim>\<open>get_path_segments\<close> produces: the segments of \<^verbatim>\<open>prefs:#frag\<close> are the scheme
  and the fragment segment \<^verbatim>\<open>#frag\<close>, and for every scheme other than
  \<^verbatim>\<open>settings-navigation\<close> a two-element sequence whose second element starts with
  \<^verbatim>\<open>#\<close> makes \<^verbatim>\<open>build_url\<close> raise \<^verbatim>\<open>IndexError\<close> instead of returning a URL.
\<close>

theorem build_url_not_total:
  "get_path_segments ''prefs:#frag'' = Inr [''prefs'', ''#frag'']
   \<and> (\<forall>url_scheme frag. url_scheme \<noteq> ''settings-navigation''
          \<longrightarrow> build_url [url_scheme, CHR ''#'' # frag] = Inl IndexError)"
proof (intro conjI allI impI)
  show "get_path_segments ''prefs:#frag'' = Inr [''prefs'', ''#frag'']"
    by code_simp
next
  fix url_scheme frag
  assume "url_scheme \<noteq> ''settings-navigation''"
  then show "build_url [url_scheme, CHR ''#'' # frag] = Inl IndexError"
    by (simp add: build_url_def)
qed

theorem build_url_not_total_witness:
  "''bridge'' \<noteq> ''settings-navigation''
   \<and> build_url [''bridge'', ''#TOP''] = Inl IndexError"
  using build_url_not_total by simp

text \<open>
  C1. The round trip fails for a path-style URL with a fragment: \<^verbatim>\<open>build_url\<close>
  appends the fragment in the \<^verbatim>\<open>settings-navigation\<close> branch (lines 66 and 67) and
  once more after the branch (lines 72 and 73), so the rebuilt URL of
  \<^verbatim>\<open>settings-navigation://com.apple.Settings.General/About#TOP\<close> ends in
  \<^verbatim>\<open>#TOP#TOP\<close>, and parsing it again gives the last segment \<^verbatim>\<open>#TOP#TOP\<close> where
  the first parse gave \<^verbatim>\<open>#TOP\<close>.
\<close>

theorem round_trip_broken_for_path_style_fragment:
  "get_path_segments ''settings-navigation://com.apple.Settings.General/About#TOP''
     = Inr [''settings-navigation'', ''com.apple.Settings.General'', ''About'', ''#TOP'']
   \<and> build_url [''settings-navigation'', ''com.apple.Settings.General'', ''About'', ''#TOP'']
     = Inr ''settings-navigation://com.apple.Settings.General/About#TOP#TOP''
   \<and> get_path_segments ''settings-navigation://com.apple.Settings.General/About#TOP#TOP''
     = Inr [''settings-navigation'', ''com.apple.Settings.General'', ''About'', ''#TOP#TOP'']"
  by (intro conjI; code_simp)

text \<open>The round trip does hold on these URLs: query style with a fragment, path style
  without one.\<close>

lemma round_trip_query_style_examples:
  "get_path_segments ''prefs:root=WIFI&path=A/B#frag''
     = Inr [''prefs'', ''WIFI'', ''A'', ''B'', ''#frag'']
   \<and> build_url [''prefs'', ''WIFI'', ''A'', ''B'', ''#frag'']
     = Inr ''prefs:root=WIFI&path=A/B#frag''
   \<and> get_path_segments ''settings-navigation://com.apple.Settings.General/About''
     = Inr [''settings-navigation'', ''com.apple.Settings.General'', ''About'']
   \<and> build_url [''settings-navigation'', ''com.apple.Settings.General'', ''About'']
     = Inr ''settings-navigation://com.apple.Settings.General/About''"
  by (intro conjI; code_simp)

section \<open>Properties of the label resolver\<close>





section \<open>Properties of the merge engine\<close>

text \<open>
  C3. Merging the same value twice is not idempotent, and a stored list can hold
  duplicates: the equality test of line 146 compares the stored value with the new value as
  a whole, and nothing tests whether a stored list already contains the new string. With
  \<^verbatim>\<open>c = {"Wi-Fi": "prefs:root=WIFI"}\<close>, the first
  \<^verbatim>\<open>merge_into(c, "Wi-Fi", "prefs:root=WLAN")\<close> stores the sorted list of the two URLs,
  and the second one appends \<^verbatim>\<open>prefs:root=WLAN\<close> again.
\<close>

theorem merge_into_twice_duplicates:
  "merge_into [(''Wi-Fi'', Str ''prefs:root=WIFI'')] ''Wi-Fi'' (Str ''prefs:root=WLAN'')
     = [(''Wi-Fi'', Lst [''prefs:root=WIFI'', ''prefs:root=WLAN''])]
   \<and> merge_into
       (merge_into [(''Wi-Fi'', Str ''prefs:root=WIFI'')] ''Wi-Fi'' (Str ''prefs:root=WLAN''))
       ''Wi-Fi'' (Str ''prefs:root=WLAN'')
     = [(''Wi-Fi'', Lst [''prefs:root=WIFI'', ''prefs:root=WLAN'', ''prefs:root=WLAN''])]"
  by (intro conjI; code_simp)

lemma py_eq_Str: "py_eq e (Str s) \<Longrightarrow> e = Str s"
  by (cases e) auto

lemma merge_into_str_keeps:
  "\<exists>x. map_of (merge_into c k (Str s)) k = Some x \<and> reachable s x
       \<and> (\<forall>y t. map_of c k = Some y \<longrightarrow> reachable t y \<longrightarrow> reachable t x)"
proof (induction "size_list (size_prod (\<lambda>_. 0 :: nat) (size :: val \<Rightarrow> nat)) c"
         arbitrary: c k rule: less_induct)
  case less
  show ?case
  proof (cases "map_of c k")
    case None
    then show ?thesis
      by (simp add: merge_into.simps [of c k "Str s"] update_conv')
  next
    case (Some e)
    show ?thesis
    proof (cases "py_eq e (Str s)")
      case True
      then have "e = Str s" by (rule py_eq_Str)
      with Some True show ?thesis
        by (simp add: merge_into.simps [of c k "Str s"])
    next
      case False
      show ?thesis
      proof (cases e)
        case (Str x)
        with Some False show ?thesis
          by (simp add: merge_into.simps [of c k "Str s"] update_conv')
      next
        case (Lst xs)
        with Some False show ?thesis
          by (simp add: merge_into.simps [of c k "Str s"] update_conv')
      next
        case (Dct d)
        from Some Dct have "size (Dct d) < Suc (size_list (size_prod (\<lambda>_. 0) size) c)"
          by (auto dest: size_map_of_val)
        then have smaller: "size_list (size_prod (\<lambda>_. 0 :: nat) (size :: val \<Rightarrow> nat)) d
                 < size_list (size_prod (\<lambda>_. 0) size) c"
          by simp
        obtain x where x: "map_of (merge_into d ROOT_STR (Str s)) ROOT_STR = Some x"
          and sx: "reachable s x"
          and keep: "\<forall>y t. map_of d ROOT_STR = Some y \<longrightarrow> reachable t y \<longrightarrow> reachable t x"
          using less [OF smaller, of ROOT_STR] by blast
        have res: "map_of (merge_into c k (Str s)) k
                     = Some (Dct (merge_into d ROOT_STR (Str s)))"
          using Some False Dct by (simp add: merge_into.simps [of c k "Str s"] update_conv')
        have "reachable s (Dct (merge_into d ROOT_STR (Str s)))"
          using x sx by simp
        moreover have "\<forall>t. reachable t e \<longrightarrow> reachable t (Dct (merge_into d ROOT_STR (Str s)))"
          using Dct x keep by (auto split: option.splits)
        ultimately show ?thesis
          using res Some by simp
      qed
    qed
  qed
qed

lemma merge_all_keeps:
  "map_of c k = Some y \<Longrightarrow> reachable t y
   \<Longrightarrow> \<exists>x. map_of (merge_all c k vs) k = Some x \<and> reachable t x"
proof (induction vs arbitrary: c y)
  case Nil
  then show ?case by simp
next
  case (Cons v vs)
  obtain x where "map_of (merge_into c k (Str v)) k = Some x" and "reachable t x"
    using merge_into_str_keeps [of c k v] Cons.prems by blast
  then show ?case
    using Cons.IH by simp
qed

text \<open>
  C4. Merge never loses data: after any sequence of \<^verbatim>\<open>merge_into\<close> calls with string
  values on one container and key, starting from any container, every one of the values is
  reachable in the value stored at that key: as the value itself, as an element of the
  stored list, or below the reserved key \<^verbatim>\<open>(root)\<close> of a stored dictionary. The values
  need not be distinct for this. (By \<open>merge_all_keeps\<close>, what was reachable at the key
  before the sequence is reachable after it as well.)
\<close>

theorem merge_never_loses:
  "\<forall>v \<in> set vs. \<exists>x. map_of (merge_all c k vs) k = Some x \<and> reachable v x"
proof (induction vs arbitrary: c)
  case Nil
  then show ?case by simp
next
  case (Cons v vs)
  obtain x where x: "map_of (merge_into c k (Str v)) k = Some x" and r: "reachable v x"
    using merge_into_str_keeps [of c k v] by blast
  have "\<exists>x. map_of (merge_all (merge_into c k (Str v)) k vs) k = Some x \<and> reachable v x"
    using merge_all_keeps [OF x r] .
  with Cons.IH [of "merge_into c k (Str v)"] show ?case by simp
qed

theorem merge_never_loses_witness:
  "''prefs:root=WLAN'' \<in> set [''prefs:root=WIFI'', ''prefs:root=WLAN'', ''prefs:root=NET'']
   \<and> (\<exists>x. map_of (merge_all [(''Wi-Fi'', Dct [(''Calling'', Str ''prefs:root=CALL'')])]
                      ''Wi-Fi'' [''prefs:root=WIFI'', ''prefs:root=WLAN'', ''prefs:root=NET''])
                ''Wi-Fi'' = Some x
            \<and> reachable ''prefs:root=WLAN'' x)"
  using merge_never_loses
    [of "[''prefs:root=WIFI'', ''prefs:root=WLAN'', ''prefs:root=NET'']"
        "[(''Wi-Fi'', Dct [(''Calling'', Str ''prefs:root=CALL'')])]" "''Wi-Fi''"]
  by simp

section \<open>Properties of the URL tree\<close>

text \<open>
  C2. \<^verbatim>\<open>add_alias\<close> raises when the walked path exists and ends at a node without an
  owning record. The tree below is built by \<^verbatim>\<open>add_url\<close> from the one record
  \<^verbatim>\<open>prefs:root=APPLE_ACCOUNT&path=ICLOUD_SERVICE\<close>, so the node of
  \<^verbatim>\<open>prefs:root=APPLE_ACCOUNT\<close> exists and has no record. The walk of
  \<^verbatim>\<open>add_alias("prefs:root=APPLE_ACCOUNT", "prefs:root=CASTLE", False)\<close> reaches that
  node with all segments consumed, and \<^verbatim>\<open>path_segments_rev.pop()\<close> (line 431) raises
  \<^verbatim>\<open>IndexError\<close>.
\<close>

theorem add_alias_raises_at_unowned_node:
  "add_url (URLTree None [])
       \<lparr>url = ''prefs:root=APPLE_ACCOUNT&path=ICLOUD_SERVICE'', label_id = ''ICLOUD'',
        manifest_path = ''m.plist'', localized_labels = [], aliases = None\<rparr>
     = Inr (URLTree None
         [(''prefs'', URLTree None
            [(''APPLE_ACCOUNT'', URLTree None
               [(''ICLOUD_SERVICE'', URLTree
                  (Some \<lparr>url = ''prefs:root=APPLE_ACCOUNT&path=ICLOUD_SERVICE'',
                         label_id = ''ICLOUD'', manifest_path = ''m.plist'',
                         localized_labels = [], aliases = None\<rparr>) [])])])])
   \<and> add_alias
       (URLTree None
         [(''prefs'', URLTree None
            [(''APPLE_ACCOUNT'', URLTree None
               [(''ICLOUD_SERVICE'', URLTree
                  (Some \<lparr>url = ''prefs:root=APPLE_ACCOUNT&path=ICLOUD_SERVICE'',
                         label_id = ''ICLOUD'', manifest_path = ''m.plist'',
                         localized_labels = [], aliases = None\<rparr>) [])])])])
       ''prefs:root=APPLE_ACCOUNT'' ''prefs:root=CASTLE'' False None
       \<lparr>alias_localizations = [], urls_to_override = []\<rparr>
     = Inl IndexError"
  by (intro conjI; code_simp)

text \<open>
  The silent case of \<^verbatim>\<open>add_alias\<close>: when the walk leaves the tree, because a
  segment of the URL is not a key of the children of the node reached, the call returns
  and changes neither the tree nor the module-level accumulators.
\<close>

lemma add_alias_next_unchanged:
  "(\<And>child. map_of us s = Some child \<Longrightarrow> add_alias child u a recursive (Some p) g = Inr (child, g))
   \<Longrightarrow> add_alias_next us s u a recursive p g = Inr (us, g)"
proof (induction us)
  case Nil
  then show ?case by simp
next
  case (Cons entry us)
  obtain k t where entry: "entry = (k, t)" by (cases entry)
  show ?case
  proof (cases "k = s")
    case True
    with entry Cons.prems [of t] show ?thesis by simp
  next
    case False
    have "add_alias_next us s u a recursive p g = Inr (us, g)"
    proof (rule Cons.IH)
      fix child assume "map_of us s = Some child"
      with False entry have "map_of (entry # us) s = Some child" by simp
      then show "add_alias child u a recursive (Some p) g = Inr (child, g)"
        by (rule Cons.prems)
    qed
    with False entry show ?thesis by simp
  qed
qed

lemma add_alias_leaves_tree_walk:
  "leaves_tree t segs u \<Longrightarrow> add_alias t u a recursive (Some (rev segs)) g = Inr (t, g)"
proof (induction segs arbitrary: t)
  case Nil
  then show ?case by simp
next
  case (Cons s segs)
  obtain r us where t: "t = URLTree r us" by (cases t)
  from Cons.prems t have unowned: "\<not> (r \<noteq> None \<and> url (the r) = u)" by simp
  have "add_alias_next us s u a recursive (rev segs) g = Inr (us, g)"
  proof (rule add_alias_next_unchanged)
    fix child assume "map_of us s = Some child"
    with Cons.prems t have "leaves_tree child segs u" by simp
    then show "add_alias child u a recursive (Some (rev segs)) g = Inr (child, g)"
      by (rule Cons.IH)
  qed
  moreover have "add_alias (URLTree r us) u a recursive (Some (rev (s # segs))) g
      = (case add_alias_next us s u a recursive (rev segs) g of
           Inl e \<Rightarrow> Inl e
         | Inr (us', g') \<Rightarrow> Inr (URLTree r us', g'))"
    using unowned by (cases r) (auto split: sum.splits)
  ultimately show ?case using t by simp
qed

lemma add_alias_silent_when_walk_leaves_tree:
  assumes "get_path_segments u = Inr segs" and "leaves_tree t segs u"
  shows "add_alias t u a recursive None g = Inr (t, g)"
proof -
  obtain r us where t: "t = URLTree r us" by (cases t)
  from assms(2) obtain s rest where segs: "segs = s # rest" by (cases segs) auto
  have "add_alias t u a recursive (Some (rev segs)) g = Inr (t, g)"
    using assms(2) by (rule add_alias_leaves_tree_walk)
  moreover have "add_alias t u a recursive None g = add_alias t u a recursive (Some (rev segs)) g"
    using t assms(1) by simp
  ultimately show ?thesis by simp
qed

subsection \<open>Missing nodes\<close>

text \<open>
  \<^verbatim>\<open>find_missing\<close> is the walk over the gaps of the tree: it pairs each gap, in order,
  with \<^verbatim>\<open>build_url\<close> of its path, and it raises exactly when \<^verbatim>\<open>build_url\<close> raises
  on the path of a gap.
\<close>

lemma build_pairs_append:
  "build_pairs (xs @ ys)
     = (case build_pairs xs of
          Inl e \<Rightarrow> Inl e
        | Inr a \<Rightarrow> (case build_pairs ys of Inl e \<Rightarrow> Inl e | Inr b \<Rightarrow> Inr (a @ b)))"
  by (induction xs rule: build_pairs.induct) (auto split: sum.splits)

lemma find_missing_characterised:
  "find_missing t segments = build_pairs (filter is_gap (nodes_with_paths t segments))"
  "find_missing_children us segments
     = build_pairs (filter is_gap (children_with_paths us segments))"
proof (induction t segments and us segments rule: find_missing_find_missing_children.induct)
  case (1 r us segments)
  show ?case
  proof (cases "r = None \<and> length segments > 1")
    case True
    show ?thesis
    proof (cases "build_url segments")
      case (Inl e)
      with True show ?thesis by simp
    next
      case (Inr missing_url)
      with True have "find_missing_children us segments
          = build_pairs (filter is_gap (children_with_paths us segments))"
        by (intro "1.IH") simp
      with True Inr show ?thesis by (simp split: sum.splits)
    qed
  next
    case False
    then have "find_missing_children us segments
        = build_pairs (filter is_gap (children_with_paths us segments))"
      by (intro "1.IH") auto
    with False show ?thesis by (auto split: sum.splits)
  qed
next
  case (2 segments)
  then show ?case by simp
next
  case (3 key subtree children segments)
  then show ?case
    by (simp add: build_pairs_append split: sum.splits)
qed

lemma build_pairs_all_built:
  "(\<forall>gap \<in> set gaps. \<exists>u. build_url (fst gap) = Inr u)
   \<Longrightarrow> \<exists>pairs. build_pairs gaps = Inr pairs
         \<and> list_all2 (\<lambda>gap pair. build_url (fst gap) = Inr (fst pair) \<and> snd pair = snd gap)
               gaps pairs"
proof (induction gaps)
  case Nil
  then show ?case by simp
next
  case (Cons gap gaps)
  obtain segments node where gap: "gap = (segments, node)" by (cases gap)
  from Cons.prems gap obtain u where u: "build_url segments = Inr u" by auto
  from Cons.prems have "\<forall>gap \<in> set gaps. \<exists>u. build_url (fst gap) = Inr u" by simp
  from Cons.IH [OF this] obtain pairs where pairs: "build_pairs gaps = Inr pairs"
    and all: "list_all2 (\<lambda>gap pair. build_url (fst gap) = Inr (fst pair) \<and> snd pair = snd gap)
                gaps pairs"
    by blast
  from gap u pairs have "build_pairs (gap # gaps) = Inr ((u, node) # pairs)" by simp
  moreover from gap u all
  have "list_all2 (\<lambda>gap pair. build_url (fst gap) = Inr (fst pair) \<and> snd pair = snd gap)
          (gap # gaps) ((u, node) # pairs)"
    by simp
  ultimately show ?case by blast
qed

text \<open>
  C6, as amended. \<^verbatim>\<open>find_missing()\<close> yields exactly one pair per node that has no
  owning record and whose path from the root of the tree has more than one segment, in the
  order of the walk; the URL of the pair is \<^verbatim>\<open>build_url\<close> of that path and the node is
  the node itself. The nodes left out are the nodes with an owning record, the root of the
  tree and the scheme nodes; a child of a scheme node without a record is reported. This
  is for the trees on whose gap paths \<^verbatim>\<open>build_url\<close> returns.
\<close>

theorem find_missing_yields_gaps:
  assumes "\<forall>gap \<in> set (filter is_gap (nodes_with_paths tree [])).
             \<exists>u. build_url (fst gap) = Inr u"
  shows "\<exists>pairs. find_missing tree [] = Inr pairs
           \<and> list_all2 (\<lambda>gap pair. build_url (fst gap) = Inr (fst pair) \<and> snd pair = snd gap)
                 (filter is_gap (nodes_with_paths tree [])) pairs"
  using build_pairs_all_built [OF assms] by (simp add: find_missing_characterised(1))

theorem find_missing_yields_gaps_witness:
  "filter is_gap (nodes_with_paths
      (URLTree None [(''prefs'', URLTree None [(''A'', URLTree None
         [(''b'', URLTree None [(''c'', URLTree None [])])])])]) [])
     = [([''prefs'', ''A''], URLTree None [(''b'', URLTree None [(''c'', URLTree None [])])]),
        ([''prefs'', ''A'', ''b''], URLTree None [(''c'', URLTree None [])]),
        ([''prefs'', ''A'', ''b'', ''c''], URLTree None [])]
   \<and> find_missing
       (URLTree None [(''prefs'', URLTree None [(''A'', URLTree None
          [(''b'', URLTree None [(''c'', URLTree None [])])])])]) []
     = Inr [(''prefs:root=A'', URLTree None [(''b'', URLTree None [(''c'', URLTree None [])])]),
            (''prefs:root=A&path=b'', URLTree None [(''c'', URLTree None [])]),
            (''prefs:root=A&path=b/c'', URLTree None [])]"
proof -
  let ?c = "URLTree None []"
  let ?b = "URLTree None [(''c'', ?c)]"
  let ?a = "URLTree None [(''b'', ?b)]"
  let ?t = "URLTree None [(''prefs'', URLTree None [(''A'', ?a)])]"
  have gaps: "filter is_gap (nodes_with_paths ?t [])
                = [([''prefs'', ''A''], ?a), ([''prefs'', ''A'', ''b''], ?b),
                   ([''prefs'', ''A'', ''b'', ''c''], ?c)]"
    by simp
  have built: "build_url [''prefs'', ''A''] = Inr ''prefs:root=A''"
    "build_url [''prefs'', ''A'', ''b''] = Inr ''prefs:root=A&path=b''"
    "build_url [''prefs'', ''A'', ''b'', ''c''] = Inr ''prefs:root=A&path=b/c''"
    by code_simp+
  then have hyp: "\<forall>gap \<in> set (filter is_gap (nodes_with_paths ?t [])).
                    \<exists>u. build_url (fst gap) = Inr u"
    unfolding gaps by simp
  from find_missing_yields_gaps [OF hyp] obtain pairs where
    pairs: "find_missing ?t [] = Inr pairs"
    and all: "list_all2 (\<lambda>gap pair. build_url (fst gap) = Inr (fst pair) \<and> snd pair = snd gap)
                (filter is_gap (nodes_with_paths ?t [])) pairs"
    by blast
  from all have "pairs = [(''prefs:root=A'', ?a), (''prefs:root=A&path=b'', ?b),
                          (''prefs:root=A&path=b/c'', ?c)]"
    unfolding gaps by (auto simp: list_all2_Cons1 built)
  with pairs gaps show ?thesis by simp
qed

text \<open>
  C6, as stated, fails. With depth counted from the scheme node, as the claim does when it
  calls the immediate children of a scheme root the nodes of depth at most 1, the node
  \<^verbatim>\<open>prefs/APPLE_ACCOUNT\<close> of the tree below is an immediate child of the scheme root
  \<^verbatim>\<open>prefs\<close>. It has no owning record, and \<^verbatim>\<open>find_missing()\<close> yields it: the test
  of line 443 is \<^verbatim>\<open>len(segments) > 1\<close>, and the path of that node has two segments.
\<close>

theorem find_missing_reports_child_of_scheme:
  "find_missing
     (URLTree None
       [(''prefs'', URLTree None
          [(''APPLE_ACCOUNT'', URLTree None
             [(''ICLOUD_SERVICE'', URLTree
                (Some \<lparr>url = ''prefs:root=APPLE_ACCOUNT&path=ICLOUD_SERVICE'',
                       label_id = ''ICLOUD'', manifest_path = ''m.plist'',
                       localized_labels = [], aliases = None\<rparr>) [])])])])
     []
   = Inr [(''prefs:root=APPLE_ACCOUNT'',
           URLTree None
             [(''ICLOUD_SERVICE'', URLTree
                (Some \<lparr>url = ''prefs:root=APPLE_ACCOUNT&path=ICLOUD_SERVICE'',
                       label_id = ''ICLOUD'', manifest_path = ''m.plist'',
                       localized_labels = [], aliases = None\<rparr>) [])])]"
  by code_simp

text \<open>
  On a gap path that starts with a query-style scheme followed by a segment with a leading
  \<^verbatim>\<open>#\<close>, \<^verbatim>\<open>build_url\<close> raises and so does \<^verbatim>\<open>find_missing\<close>. The tree below is
  built by \<^verbatim>\<open>add_url\<close> from the one record \<^verbatim>\<open>prefs:root=%23a&path=b\<close>; its node
  \<^verbatim>\<open>#a\<close> has no record and the path \<^verbatim>\<open>["prefs", "#a"]\<close>.
\<close>

lemma find_missing_raises_at_hash_node:
  "add_url (URLTree None [])
       \<lparr>url = ''prefs:root=%23a&path=b'', label_id = ''L'',
        manifest_path = ''m.plist'', localized_labels = [], aliases = None\<rparr>
     = Inr (URLTree None
         [(''prefs'', URLTree None
            [(''#a'', URLTree None
               [(''b'', URLTree
                  (Some \<lparr>url = ''prefs:root=%23a&path=b'', label_id = ''L'',
                         manifest_path = ''m.plist'', localized_labels = [],
                         aliases = None\<rparr>) [])])])])
   \<and> find_missing
       (URLTree None
         [(''prefs'', URLTree None
            [(''#a'', URLTree None
               [(''b'', URLTree
                  (Some \<lparr>url = ''prefs:root=%23a&path=b'', label_id = ''L'',
                         manifest_path = ''m.plist'', localized_labels = [],
                         aliases = None\<rparr>) [])])])])
       []
     = Inl IndexError"
  by (intro conjI; code_simp)

subsection \<open>Alias propagation\<close>

lemma RawSettingsURL_add_alias_aliases:
  "RawSettingsURL_add_alias self a g = Inr (self', g')
   \<Longrightarrow> aliases self' = Some ((case aliases self of None \<Rightarrow> [] | Some as \<Rightarrow> as) @ [a])
       \<and> url self' = url self"
  by (auto simp: RawSettingsURL_add_alias_def split: sum.splits)

lemma add_alias_owner_gets_alias:
  assumes "add_alias (URLTree (Some rc) cus) (url rc) a recursive p g = Inr (t', g')"
  shows "\<exists>rc' cus'. t' = URLTree (Some rc') cus'
           \<and> aliases rc' = Some ((case aliases rc of None \<Rightarrow> [] | Some as \<Rightarrow> as) @ [a])"
proof -
  obtain rc' g1 where r: "RawSettingsURL_add_alias rc a g = Inr (rc', g1)"
    using assms by (auto split: sum.splits)
  then have "\<exists>cus'. t' = URLTree (Some rc') cus'"
    using assms by (auto split: sum.splits if_splits)
  with RawSettingsURL_add_alias_aliases [OF r] show ?thesis by blast
qed

lemma add_alias_children_reaches_child:
  "add_alias_children us su sa recursive g = Inr (us', g') \<Longrightarrow> map_of us x = Some c
   \<Longrightarrow> \<exists>cu ca g1 g2 c'. build_url (su @ [x]) = Inr cu \<and> build_url (sa @ [x]) = Inr ca
         \<and> add_alias c cu ca recursive None g1 = Inr (c', g2) \<and> map_of us' x = Some c'"
proof (induction us arbitrary: g us' g')
  case Nil
  then show ?case by simp
next
  case (Cons entry us)
  obtain k t where entry: "entry = (k, t)" by (cases entry)
  from Cons.prems(1) entry obtain cu ca t' g1 rest' where
    cu: "build_url (su @ [k]) = Inr cu" and ca: "build_url (sa @ [k]) = Inr ca"
    and t': "add_alias t cu ca recursive None g = Inr (t', g1)"
    and rest: "add_alias_children us su sa recursive g1 = Inr (rest', g')"
    and us': "us' = (k, t') # rest'"
    by (auto split: sum.splits)
  show ?case
  proof (cases "k = x")
    case True
    with Cons.prems(2) entry have "c = t" by simp
    with True cu ca t' us' show ?thesis by auto
  next
    case False
    with Cons.prems(2) entry have "map_of us x = Some c" by simp
    from Cons.IH [OF rest this] False us' show ?thesis by auto
  qed
qed

text \<open>
  With any number of children: when the recursive \<^verbatim>\<open>add_alias\<close> at a node owned by
  \<open>u\<close> returns, a child under \<open>x\<close> whose record has exactly the URL
  \<^verbatim>\<open>build_url(get_path_segments(u) + [x])\<close> has got the alias
  \<^verbatim>\<open>build_url(get_path_segments(alias) + [x])\<close>.
\<close>

lemma alias_propagates_to_each_exact_child:
  assumes ret: "add_alias (URLTree (Some r) us) (url r) alias True p g = Inr (t', g')"
    and child: "map_of us x = Some (URLTree (Some rc) cus)"
    and su: "get_path_segments (url r) = Inr su"
    and sa: "get_path_segments alias = Inr sa"
    and cu: "build_url (su @ [x]) = Inr (url rc)"
    and ca: "build_url (sa @ [x]) = Inr ca"
  shows "\<exists>rc' cus'. map_of (urls t') x = Some (URLTree (Some rc') cus')
           \<and> aliases rc' = Some ((case aliases rc of None \<Rightarrow> [] | Some as \<Rightarrow> as) @ [ca])"
proof -
  from ret su sa obtain r' g1 us' where
    loop: "add_alias_children us su sa True g1 = Inr (us', g')"
    and t': "t' = URLTree (Some r') us'"
    by (auto split: sum.splits)
  from add_alias_children_reaches_child [OF loop child] cu ca obtain g2 g3 c' where
    c': "add_alias (URLTree (Some rc) cus) (url rc) ca True None g2 = Inr (c', g3)"
    and look: "map_of us' x = Some c'"
    by auto
  from add_alias_owner_gets_alias [OF c'] look t' show ?thesis by auto
qed




subsection \<open>Root flattening\<close>

lemma map_of_dict_update:
  "distinct (map fst other) \<Longrightarrow>
   map_of (dict_update d other) k
     = (case map_of other k of Some v \<Rightarrow> Some v | None \<Rightarrow> map_of d k)"
proof (induction other arbitrary: d)
  case Nil
  then show ?case by (simp add: dict_update_def)
next
  case (Cons item other)
  have step: "dict_update d (item # other)
                = dict_update (AList.update (fst item) (snd item) d) other"
    by (simp add: dict_update_def)
  from Cons.prems have dist: "distinct (map fst other)" and fresh: "fst item \<notin> fst ` set other"
    by auto
  from fresh have none: "map_of other (fst item) = None"
    by (simp add: map_of_eq_None_iff)
  have ih: "map_of (dict_update (AList.update (fst item) (snd item) d) other) k
              = (case map_of other k of
                   Some v \<Rightarrow> Some v
                 | None \<Rightarrow> map_of (AList.update (fst item) (snd item) d) k)"
    by (rule Cons.IH [OF dist])
  show ?case
  proof (cases "k = fst item")
    case True
    have "map_of (item # other) k = Some (snd item)"
      using True by (cases item) simp
    moreover have "map_of (dict_update d (item # other)) k = Some (snd item)"
      unfolding step ih using True none by (simp add: update_conv')
    ultimately show ?thesis by simp
  next
    case False
    have "map_of (item # other) k = map_of other k"
      using False by (cases item) auto
    moreover have "map_of (AList.update (fst item) (snd item) d) k = map_of d k"
      using False by (simp add: update_conv')
    ultimately show ?thesis
      unfolding step ih by (simp split: option.split)
  qed
qed

lemma flatten_root_hoists:
  assumes prefs: "map_of (urls tree) ''prefs'' = Some prefs_scheme"
    and rr: "map_of (urls prefs_scheme) ''ROOT'' = Some root_root"
    and child: "map_of (urls root_root) key = Some node"
    and key: "key \<noteq> ''ROOT''"
    and dist: "distinct (map fst (urls root_root))"
  shows "\<exists>prefs'. map_of (urls (flatten_root tree)) ''prefs'' = Some prefs'
            \<and> map_of (urls prefs') key = Some node
            \<and> map_of (urls prefs') ''ROOT'' = None"
proof -
  let ?children = "AList.delete ''ROOT'' (dict_update (urls prefs_scheme) (urls root_root))"
  let ?prefs' = "URLTree (root prefs_scheme) ?children"
  have "flatten_root tree = URLTree (root tree) (AList.update ''prefs'' ?prefs' (urls tree))"
    using prefs rr by (simp add: flatten_root_def)
  then have "map_of (urls (flatten_root tree)) ''prefs'' = Some ?prefs'"
    by (simp add: update_conv')
  moreover have "map_of (urls ?prefs') key = Some node"
    using child key by (simp add: delete_conv' map_of_dict_update [OF dist])
  moreover have "map_of (urls ?prefs') ''ROOT'' = None"
    by (simp add: delete_conv')
  ultimately show ?thesis by blast
qed

text \<open>
  C8. Root flattening: in a tree whose \<^verbatim>\<open>prefs\<close> node has a child \<^verbatim>\<open>ROOT\<close> that
  has a child keyed \<^verbatim>\<open>child\<close>, after the flattening step the node that was at
  \<^verbatim>\<open>prefs/ROOT/child\<close> is the child \<^verbatim>\<open>child\<close> of the \<^verbatim>\<open>prefs\<close> node, and
  \<^verbatim>\<open>ROOT\<close> is not a key of the children of \<^verbatim>\<open>prefs\<close>. The keys of a Python
  dictionary are distinct, which is the last hypothesis. (The lemma before shows the same
  for every key other than \<^verbatim>\<open>ROOT\<close>.)
\<close>

theorem flatten_root_hoists_child:
  assumes "map_of (urls tree) ''prefs'' = Some prefs_scheme"
    and "map_of (urls prefs_scheme) ''ROOT'' = Some root_root"
    and "map_of (urls root_root) ''child'' = Some node"
    and "distinct (map fst (urls root_root))"
  shows "\<exists>prefs'. map_of (urls (flatten_root tree)) ''prefs'' = Some prefs'
            \<and> map_of (urls prefs') ''child'' = Some node
            \<and> map_of (urls prefs') ''ROOT'' = None"
  using assms by (intro flatten_root_hoists) simp_all

theorem flatten_root_hoists_child_witness:
  "map_of (urls (URLTree None [(''prefs'', URLTree None [(''ROOT'', URLTree None
       [(''child'', URLTree None [(''leaf'', URLTree None [])])])])])) ''prefs''
     = Some (URLTree None [(''ROOT'', URLTree None
         [(''child'', URLTree None [(''leaf'', URLTree None [])])])])
   \<and> distinct (map fst (urls (URLTree None
         [(''child'', URLTree None [(''leaf'', URLTree None [])])])))
   \<and> (\<exists>prefs'. map_of (urls (flatten_root
           (URLTree None [(''prefs'', URLTree None [(''ROOT'', URLTree None
              [(''child'', URLTree None [(''leaf'', URLTree None [])])])])]))) ''prefs''
         = Some prefs'
       \<and> map_of (urls prefs') ''child'' = Some (URLTree None [(''leaf'', URLTree None [])])
       \<and> map_of (urls prefs') ''ROOT'' = None)"
  using flatten_root_hoists_child
    [of "URLTree None [(''prefs'', URLTree None [(''ROOT'', URLTree None
           [(''child'', URLTree None [(''leaf'', URLTree None [])])])])]"
        "URLTree None [(''ROOT'', URLTree None
           [(''child'', URLTree None [(''leaf'', URLTree None [])])])]"
        "URLTree None [(''child'', URLTree None [(''leaf'', URLTree None [])])]"
        "URLTree None [(''leaf'', URLTree None [])]"]
  by simp

section \<open>Properties of record construction\<close>

text \<open>
  C7. An override with an empty inline label is accepted: \<^verbatim>\<open>add_override\<close> on
  \<^verbatim>\<open>{"url": "prefs:root=X", "label": {"en": ""}}\<close> returns normally, and the tree
  then holds a record whose label for \<^verbatim>\<open>en\<close> is the empty string. The label
  assignment of \<^verbatim>\<open>Bundle.load\<close> raises for the same empty label. (Its test is on the
  length of the entry, so it also lets a device-specific entry through whose resolved label
  is empty.)
\<close>

theorem add_override_accepts_empty_label:
  "add_override [] [] (URLTree None [])
       \<lparr>ov_url = Some ''prefs:root=X'', ov_label_id = None, ov_manifest = None,
        ov_label = Some [(''en'', LStr '''')], ov_child_urls = None\<rparr>
     = Inr (URLTree None
         [(''prefs'', URLTree None
            [(''X'', URLTree
               (Some \<lparr>url = ''prefs:root=X'', label_id = '''', manifest_path = '''',
                      localized_labels = [(''en'', LStr '''')], aliases = None\<rparr>) [])])])
   \<and> assign_labels
       \<lparr>url = ''prefs:root=X'', label_id = ''X_LABEL'', manifest_path = ''m.plist'',
        localized_labels = [], aliases = None\<rparr>
       [(''en'', [(''X_LABEL'', LStr '''')])]
     = Inl (Exception
         ''Empty label for URL prefs:root=X, locale en. Please adjust overrides as necessary.'')
   \<and> assign_labels
       \<lparr>url = ''prefs:root=X'', label_id = ''X_LABEL'', manifest_path = ''m.plist'',
        localized_labels = [], aliases = None\<rparr>
       [(''en'', [(''X_LABEL'', LDict [(''NSStringDeviceSpecificRuleType'',
                                         [(''iphone'', '''')])])])]
     = Inr \<lparr>url = ''prefs:root=X'', label_id = ''X_LABEL'', manifest_path = ''m.plist'',
            localized_labels = [(''en'', LDict [(''NSStringDeviceSpecificRuleType'',
                                                 [(''iphone'', '''')])])],
            aliases = None\<rparr>
   \<and> sanitize_key (LDict [(''NSStringDeviceSpecificRuleType'', [(''iphone'', '''')])]) = ''''"
  by (intro conjI; code_simp)

end
